theory Spec2Isabelle
  imports Main
begin

section \<open>Rate limiter (app/lib/utils/rate-limit.ts)\<close>

text \<open>
  JavaScript numbers that hold counters and millisecond timestamps are modelled as
  \<open>int\<close>: \<open>Date.now()\<close> is an integer, the counter starts at 1 and is only ever
  incremented, and the callers pass integer budgets and windows. The clock reading
  \<open>Date.now()\<close> is the explicit argument \<open>now\<close>; the module-level
  \<open>attemptStore\<close> (a \<open>Map\<close>) is passed in and returned.
\<close>

record RateLimitEntry =
  count :: int
  lastAttempt :: int
  blocked :: bool

record RateLimitDecision =
  allowed :: bool
  remainingAttempts :: int
  resetTime :: int

type_synonym attemptStore = "string \<rightharpoonup> RateLimitEntry"

definition checkRateLimit ::
  "string \<Rightarrow> int \<Rightarrow> int \<Rightarrow> int \<Rightarrow> attemptStore \<Rightarrow> RateLimitDecision \<times> attemptStore" where
  "checkRateLimit identifier maxAttempts windowMs now store =
     (case store identifier of
        None \<Rightarrow>
          (\<lparr>allowed = True, remainingAttempts = maxAttempts - 1, resetTime = now + windowMs\<rparr>,
           store(identifier \<mapsto> \<lparr>count = 1, lastAttempt = now, blocked = False\<rparr>))
      | Some entry \<Rightarrow>
          if now - lastAttempt entry > windowMs then
            (\<lparr>allowed = True, remainingAttempts = maxAttempts - 1, resetTime = now + windowMs\<rparr>,
             store(identifier \<mapsto> \<lparr>count = 1, lastAttempt = now, blocked = False\<rparr>))
          else
            let entry1 = entry\<lparr>count := count entry + 1, lastAttempt := now\<rparr> in
            if count entry1 > maxAttempts then
              (\<lparr>allowed = False, remainingAttempts = 0,
                resetTime = lastAttempt entry1 + windowMs\<rparr>,
               store(identifier \<mapsto> entry1\<lparr>blocked := True\<rparr>))
            else
              (\<lparr>allowed = True, remainingAttempts = maxAttempts - count entry1,
                resetTime = lastAttempt entry1 + windowMs\<rparr>,
               store(identifier \<mapsto> entry1)))"

definition clearRateLimit :: "string \<Rightarrow> attemptStore \<Rightarrow> attemptStore" where
  "clearRateLimit identifier store = store(identifier := None)"

text \<open>The \<open>setInterval\<close> sweep: one run of its body at clock reading \<open>now\<close>.\<close>

definition cleanupOldEntries :: "int \<Rightarrow> attemptStore \<Rightarrow> attemptStore" where
  "cleanupOldEntries now store =
     (\<lambda>key. case store key of
               None \<Rightarrow> None
             | Some entry \<Rightarrow> if now - lastAttempt entry > 60 * 60 * 1000 then None else Some entry)"

text \<open>
  A caller that invokes \<open>checkRateLimit\<close> for one identifier at the successive clock
  readings of a list, with the same budget and window each time, and nothing else
  touching the store in between. The decisions come back in call order.
\<close>

fun checkRateLimit_calls ::
  "string \<Rightarrow> int \<Rightarrow> int \<Rightarrow> int list \<Rightarrow> attemptStore \<Rightarrow> RateLimitDecision list \<times> attemptStore" where
  "checkRateLimit_calls identifier maxAttempts windowMs [] store = ([], store)"
| "checkRateLimit_calls identifier maxAttempts windowMs (now # later) store =
     (let (d, store1) = checkRateLimit identifier maxAttempts windowMs now store;
          (ds, store2) = checkRateLimit_calls identifier maxAttempts windowMs later store1
      in (d # ds, store2))"

text \<open>Every call arrives at most \<open>windowMs\<close> after the call (or timestamp) before it.\<close>

fun gaps_within :: "int \<Rightarrow> int \<Rightarrow> int list \<Rightarrow> bool" where
  "gaps_within windowMs prev [] = True"
| "gaps_within windowMs prev (now # later) =
     (now - prev \<le> windowMs \<and> gaps_within windowMs now later)"

text \<open>Every call happens inside the window that opened at \<open>start\<close>.\<close>

definition in_window :: "int \<Rightarrow> int \<Rightarrow> int list \<Rightarrow> bool" where
  "in_window windowMs start ts = list_all (\<lambda>t. start \<le> t \<and> t \<le> start + windowMs) ts"

text \<open>
  JavaScript strings are modelled as \<open>string\<close>: lists of code units below 256.
  Of the characters matched by \<open>\s\<close> and removed by \<open>trim()\<close>, those in that range
  are tab, line feed, vertical tab, form feed, carriage return, space and the
  no-break space.
\<close>

definition isWhiteSpace :: "char \<Rightarrow> bool" where
  "isWhiteSpace c = ((of_char c :: nat) \<in> {9, 10, 11, 12, 13, 32, 160})"

definition trim :: "string \<Rightarrow> string" where
  "trim s = rev (dropWhile isWhiteSpace (rev (dropWhile isWhiteSpace s)))"

text \<open>
  \<open>getClientIP\<close>: the request headers are a map from (lower-case) header name to value.
  A header that is absent or empty is falsy. \<open>split(',')[0]\<close> is the text before the
  first comma.
\<close>

definition getClientIP :: "(string \<rightharpoonup> string) \<Rightarrow> string" where
  "getClientIP headers =
     (case headers ''x-forwarded-for'' of
        Some (c # cs) \<Rightarrow> trim (takeWhile (\<lambda>x. x \<noteq> CHR '','') (c # cs))
      | _ \<Rightarrow> (case headers ''x-real-ip'' of
                Some (c # cs) \<Rightarrow> c # cs
              | _ \<Rightarrow> ''unknown''))"

section \<open>Validation helpers (app/lib/actions/auth-actions.ts)\<close>

text \<open>
  \<open>emailRegex = /^[^\s@]+@[^\s@]+\.[^\s@]+$/\<close>. The three \<open>[^\s@]+\<close> groups hold
  neither white space nor \<open>@\<close>, so a match has exactly one \<open>@\<close>: the text before it is
  the longest prefix free of white space and \<open>@\<close> and must not be empty; the text after
  it is free of both to the end of the string and has a dot that is neither its first
  nor its last character.
\<close>

definition emailChar :: "char \<Rightarrow> bool" where
  "emailChar c = (\<not> isWhiteSpace c \<and> c \<noteq> CHR ''@'')"

definition emailRegex_test :: "string \<Rightarrow> bool" where
  "emailRegex_test s =
     (takeWhile emailChar s \<noteq> [] \<and>
      (case dropWhile emailChar s of
         [] \<Rightarrow> False
       | c # domain \<Rightarrow> c = CHR ''@'' \<and> list_all emailChar domain
                        \<and> CHR ''.'' \<in> set (butlast (tl domain))))"

definition validateEmail :: "string \<Rightarrow> bool" where
  "validateEmail email = (emailRegex_test email \<and> length email \<le> 254)"

text \<open>
  The password tests \<open>/(?=.*[a-z])/\<close>, \<open>/(?=.*[A-Z])/\<close>, \<open>/(?=.*\d)/\<close> and the
  punctuation class are unanchored, so each succeeds exactly when some character of the
  password is in the class (the match may start at that character).
\<close>

definition isLower :: "char \<Rightarrow> bool" where
  "isLower c = (97 \<le> (of_char c :: nat) \<and> (of_char c :: nat) \<le> 122)"

definition isUpper :: "char \<Rightarrow> bool" where
  "isUpper c = (65 \<le> (of_char c :: nat) \<and> (of_char c :: nat) \<le> 90)"

definition isDigit :: "char \<Rightarrow> bool" where
  "isDigit c = (48 \<le> (of_char c :: nat) \<and> (of_char c :: nat) \<le> 57)"

text \<open>The class \<open>[!@#$%^&*()_+\-=\[\]{};':"\\|,.<>\/?]\<close>, in the order it is written;
  0x27 is the apostrophe, 0x22 the double quote and 0x5C the backslash.\<close>

definition specialChars :: string where
  "specialChars = ''!@#$%^&*()_+-=[]{};'' @ [CHR 0x27] @ '':'' @ [CHR 0x22, CHR 0x5C] @ ''|,.<>/?''"

definition isSpecial :: "char \<Rightarrow> bool" where
  "isSpecial c = (c \<in> set specialChars)"

record PasswordValidation =
  isValid :: bool
  message :: "string option"

definition validatePassword :: "string \<Rightarrow> PasswordValidation" where
  "validatePassword password =
     (if length password < 8 then
        \<lparr>isValid = False, message = Some ''Password must be at least 8 characters long''\<rparr>
      else if length password > 128 then
        \<lparr>isValid = False, message = Some ''Password must be less than 128 characters''\<rparr>
      else if \<not> list_ex isLower password then
        \<lparr>isValid = False, message = Some ''Password must contain at least one lowercase letter''\<rparr>
      else if \<not> list_ex isUpper password then
        \<lparr>isValid = False, message = Some ''Password must contain at least one uppercase letter''\<rparr>
      else if \<not> list_ex isDigit password then
        \<lparr>isValid = False, message = Some ''Password must contain at least one number''\<rparr>
      else if \<not> list_ex isSpecial password then
        \<lparr>isValid = False, message = Some ''Password must contain at least one special character''\<rparr>
      else \<lparr>isValid = True, message = None\<rparr>)"

definition sanitizeInput :: "string \<Rightarrow> string" where
  "sanitizeInput input = filter (\<lambda>c. c \<noteq> CHR ''<'' \<and> c \<noteq> CHR ''>'') (trim input)"

text \<open>
  The specification's reading of \<open>validatePassword\<close>, for comparison with the code:
  six rules in a fixed order, each a test that the password violates it and the reason
  to report; the result is the reason of the first rule violated, if any.
\<close>

definition passwordRules :: "((string \<Rightarrow> bool) \<times> string) list" where
  "passwordRules =
     [(\<lambda>s. length s < 8, ''Password must be at least 8 characters long''),
      (\<lambda>s. length s > 128, ''Password must be less than 128 characters''),
      (\<lambda>s. \<not> list_ex isLower s, ''Password must contain at least one lowercase letter''),
      (\<lambda>s. \<not> list_ex isUpper s, ''Password must contain at least one uppercase letter''),
      (\<lambda>s. \<not> list_ex isDigit s, ''Password must contain at least one number''),
      (\<lambda>s. \<not> list_ex isSpecial s, ''Password must contain at least one special character'')]"

definition firstViolatedRule :: "string \<Rightarrow> string option" where
  "firstViolatedRule s = map_option snd (find (\<lambda>(violated, reason). violated s) passwordRules)"

section \<open>The login action (app/lib/actions/auth-actions.ts)\<close>

text \<open>\<open>String.prototype.includes\<close>: the second string occurs somewhere in the first.\<close>

definition startsWith :: "string \<Rightarrow> string \<Rightarrow> bool" where
  "startsWith s p = (take (length p) s = p)"

fun str_includes :: "string \<Rightarrow> string \<Rightarrow> bool" where
  "str_includes [] sub = (sub = [])"
| "str_includes (c # cs) sub = (startsWith (c # cs) sub \<or> str_includes cs sub)"

text \<open>
  What \<open>supabase.auth.signInWithPassword\<close> can do: resolve without an error, resolve
  with an error object carrying a message, or throw (as can \<open>createClient\<close>).
\<close>

datatype signIn_outcome = SignInOk | SignInError string | SignInThrows

text \<open>A form field that was not submitted is \<open>None\<close>; it is falsy, as is the empty string.\<close>

record LoginFormData =
  email :: "string option"
  password :: "string option"

record ActionResult =
  error :: "string option"

text \<open>
  The body of the \<open>try\<close> block. The result \<open>None\<close> stands for an exception leaving the
  block. \<open>toLocaleTimeString\<close> renders a reset time for the message (it depends on the
  server's locale); \<open>signInWithPassword\<close> is the identity provider.
\<close>

definition login_try ::
  "(int \<Rightarrow> string) \<Rightarrow> (string \<Rightarrow> string \<Rightarrow> signIn_outcome) \<Rightarrow> (string \<rightharpoonup> string) \<Rightarrow>
   LoginFormData \<Rightarrow> int \<Rightarrow> attemptStore \<Rightarrow> ActionResult option \<times> attemptStore" where
  "login_try toLocaleTimeString signInWithPassword headersList data now store =
     (let clientIP = getClientIP headersList;
          (rateLimitResult, store1) =
             checkRateLimit (''login:'' @ clientIP) 5 (15 * 60 * 1000) now store
      in
      if \<not> allowed rateLimitResult then
        (Some \<lparr>error = Some (''Too many login attempts. Please try again after '' @
                              toLocaleTimeString (resetTime rateLimitResult))\<rparr>, store1)
      else
        case (email data, password data) of
          (Some (e # es), Some (p # ps)) \<Rightarrow>
            (let email1 = sanitizeInput (e # es); password1 = p # ps in
             if \<not> validateEmail email1 then
               (Some \<lparr>error = Some ''Please enter a valid email address''\<rparr>, store1)
             else if length password1 < 1 then
               (Some \<lparr>error = Some ''Password is required''\<rparr>, store1)
             else
               (case signInWithPassword email1 password1 of
                  SignInThrows \<Rightarrow> (None, store1)
                | SignInError msg \<Rightarrow>
                    if str_includes msg ''Invalid login credentials'' then
                      (Some \<lparr>error = Some ''Invalid email or password''\<rparr>, store1)
                    else if str_includes msg ''Email not confirmed'' then
                      (Some \<lparr>error = Some ''Please verify your email address before signing in''\<rparr>,
                       store1)
                    else if str_includes msg ''Too many requests'' then
                      (Some \<lparr>error = Some ''Too many login attempts. Please try again later''\<rparr>,
                       store1)
                    else
                      (Some \<lparr>error = Some ''Authentication failed. Please try again''\<rparr>, store1)
                | SignInOk \<Rightarrow> (Some \<lparr>error = None\<rparr>, store1)))
        | _ \<Rightarrow> (Some \<lparr>error = Some ''Email and password are required''\<rparr>, store1))"

text \<open>The whole action: the \<open>catch\<close> clause turns any exception into a fixed message.\<close>

definition login ::
  "(int \<Rightarrow> string) \<Rightarrow> (string \<Rightarrow> string \<Rightarrow> signIn_outcome) \<Rightarrow> (string \<rightharpoonup> string) \<Rightarrow>
   LoginFormData \<Rightarrow> int \<Rightarrow> attemptStore \<Rightarrow> ActionResult \<times> attemptStore" where
  "login toLocaleTimeString signInWithPassword headersList data now store =
     (case login_try toLocaleTimeString signInWithPassword headersList data now store of
        (Some result, store1) \<Rightarrow> (result, store1)
      | (None, store1) \<Rightarrow>
          (\<lparr>error = Some ''An unexpected error occurred. Please try again''\<rparr>, store1))"

section \<open>The session middleware (lib/supabase/middleware.ts)\<close>

text \<open>
  The parts of a request URL the middleware reads or writes. \<open>searchParams\<close> is the
  ordered list of name/value pairs of a \<open>URLSearchParams\<close>.
\<close>

record URL =
  origin :: string
  pathname :: string
  searchParams :: "(string \<times> string) list"

text \<open>
  \<open>URLSearchParams.set\<close>: the first pair with that name takes the new value and the
  other pairs with that name are removed; with no such pair, one is appended.
  \<open>URLSearchParams.get\<close>: the value of the first pair with that name.
\<close>

fun searchParams_set :: "string \<Rightarrow> string \<Rightarrow> (string \<times> string) list \<Rightarrow> (string \<times> string) list" where
  "searchParams_set name v [] = [(name, v)]"
| "searchParams_set name v ((k, x) # rest) =
     (if k = name then (name, v) # filter (\<lambda>(k1, _). k1 \<noteq> name) rest
      else (k, x) # searchParams_set name v rest)"

definition searchParams_get :: "string \<Rightarrow> (string \<times> string) list \<Rightarrow> string option" where
  "searchParams_get name ps = map_of ps name"

text \<open>
  A response: either \<open>NextResponse.next\<close> (the request goes on to its handler) or
  \<open>NextResponse.redirect(url)\<close>; \<open>headers\<close> holds what \<open>headers.set\<close> has put on
  this response object and \<open>cookies\<close> what \<open>cookies.set\<close> has. Both constructors give
  a new object with neither.
\<close>

datatype ResponseKind = PassThrough | RedirectTo URL

type_synonym cookie = "string \<times> string \<times> string"

record NextResponse =
  kind :: ResponseKind
  headers :: "string \<rightharpoonup> string"
  cookies :: "cookie list"

definition NextResponse_next :: NextResponse where
  "NextResponse_next = \<lparr>kind = PassThrough, headers = Map.empty, cookies = []\<rparr>"

definition NextResponse_redirect :: "URL \<Rightarrow> NextResponse" where
  "NextResponse_redirect url = \<lparr>kind = RedirectTo url, headers = Map.empty, cookies = []\<rparr>"

definition headers_set :: "string \<Rightarrow> string \<Rightarrow> NextResponse \<Rightarrow> NextResponse" where
  "headers_set name v response = response\<lparr>headers := (headers response)(name \<mapsto> v)\<rparr>"

definition cookies_set :: "cookie \<Rightarrow> NextResponse \<Rightarrow> NextResponse" where
  "cookies_set c response =
     response\<lparr>cookies := filter (\<lambda>c1. fst c1 \<noteq> fst c) (cookies response) @ [c]\<rparr>"

text \<open>
  The \<open>setAll\<close> callback handed to the provider client: it replaces
  \<open>supabaseResponse\<close> by a new pass-through response and puts the cookies on it.
\<close>

definition setAll :: "cookie list \<Rightarrow> NextResponse \<Rightarrow> NextResponse" where
  "setAll cookiesToSet supabaseResponse = fold cookies_set cookiesToSet NextResponse_next"

definition publicPaths :: "string list" where
  "publicPaths = [''/login'', ''/register'', ''/auth'', ''/_next'', ''/favicon.ico'', ''/api'']"

definition isPublicPath :: "string \<Rightarrow> bool" where
  "isPublicPath path = list_ex (\<lambda>p. startsWith path p) publicPaths"

text \<open>
  \<open>/\.(svg|png|jpg|jpeg|gif|webp|ico|css|js)$/i\<close>: the path ends in a dot and one of
  the extensions, letters compared without regard to case.
\<close>

definition toLowerASCII :: "char \<Rightarrow> char" where
  "toLowerASCII c =
     (case map_of (zip ''ABCDEFGHIJKLMNOPQRSTUVWXYZ'' ''abcdefghijklmnopqrstuvwxyz'') c of
        Some l \<Rightarrow> l
      | None \<Rightarrow> c)"

definition endsWith :: "string \<Rightarrow> string \<Rightarrow> bool" where
  "endsWith s p = (length p \<le> length s \<and> drop (length s - length p) s = p)"

definition staticExtensions :: "string list" where
  "staticExtensions =
     [''svg'', ''png'', ''jpg'', ''jpeg'', ''gif'', ''webp'', ''ico'', ''css'', ''js'']"

definition isStaticFile :: "string \<Rightarrow> bool" where
  "isStaticFile path =
     list_ex (\<lambda>ext. endsWith (map toLowerASCII path) (CHR ''.'' # ext)) staticExtensions"

text \<open>
  \<open>updateSession\<close>. The provider's \<open>getUser\<close> is given by what it does: the batches of
  cookies it passes to \<open>setAll\<close> while refreshing the session (\<open>setAllCalls\<close>, in
  order) and the user it resolves (\<open>user\<close>, \<open>None\<close> when there is none).
\<close>

definition updateSession :: "URL \<Rightarrow> cookie list list \<Rightarrow> 'u option \<Rightarrow> NextResponse" where
  "updateSession nextUrl setAllCalls user =
     (let supabaseResponse0 = NextResponse_next;
          supabaseResponse1 = fold setAll setAllCalls supabaseResponse0;
          supabaseResponse =
            headers_set ''X-XSS-Protection'' ''1; mode=block''
              (headers_set ''Referrer-Policy'' ''strict-origin-when-cross-origin''
                (headers_set ''X-Content-Type-Options'' ''nosniff''
                  (headers_set ''X-Frame-Options'' ''DENY'' supabaseResponse1)))
      in
      if isPublicPath (pathname nextUrl) \<or> isStaticFile (pathname nextUrl) then supabaseResponse
      else if user = None then
        (let url = nextUrl;
             url1 = url\<lparr>pathname := ''/login''\<rparr>;
             url2 = url1\<lparr>searchParams :=
                      searchParams_set ''redirect'' (pathname nextUrl) (searchParams url1)\<rparr>
         in NextResponse_redirect url2)
      else supabaseResponse)"

text \<open>The four security headers, as the middleware writes them.\<close>

definition securityHeaders :: "(string \<times> string) list" where
  "securityHeaders =
     [(''X-Frame-Options'', ''DENY''),
      (''X-Content-Type-Options'', ''nosniff''),
      (''Referrer-Policy'', ''strict-origin-when-cross-origin''),
      (''X-XSS-Protection'', ''1; mode=block'')]"

definition hasSecurityHeaders :: "NextResponse \<Rightarrow> bool" where
  "hasSecurityHeaders response =
     list_all (\<lambda>(name, v). headers response name = Some v) securityHeaders"

section \<open>Properties of the rate limiter\<close>

lemma checkRateLimit_fresh:
  "store identifier = None \<Longrightarrow>
   checkRateLimit identifier maxAttempts windowMs now store =
     (\<lparr>allowed = True, remainingAttempts = maxAttempts - 1, resetTime = now + windowMs\<rparr>,
      store(identifier \<mapsto> \<lparr>count = 1, lastAttempt = now, blocked = False\<rparr>))"
  by (simp add: checkRateLimit_def)

lemma checkRateLimit_expired:
  "store identifier = Some entry \<Longrightarrow> now - lastAttempt entry > windowMs \<Longrightarrow>
   checkRateLimit identifier maxAttempts windowMs now store =
     (\<lparr>allowed = True, remainingAttempts = maxAttempts - 1, resetTime = now + windowMs\<rparr>,
      store(identifier \<mapsto> \<lparr>count = 1, lastAttempt = now, blocked = False\<rparr>))"
  by (simp add: checkRateLimit_def)

lemma checkRateLimit_over:
  "store identifier = Some entry \<Longrightarrow> now - lastAttempt entry \<le> windowMs \<Longrightarrow>
   count entry + 1 > maxAttempts \<Longrightarrow>
   checkRateLimit identifier maxAttempts windowMs now store =
     (\<lparr>allowed = False, remainingAttempts = 0, resetTime = now + windowMs\<rparr>,
      store(identifier \<mapsto> \<lparr>count = count entry + 1, lastAttempt = now, blocked = True\<rparr>))"
  by (cases entry) (simp add: checkRateLimit_def Let_def)

lemma checkRateLimit_under:
  "store identifier = Some entry \<Longrightarrow> now - lastAttempt entry \<le> windowMs \<Longrightarrow>
   count entry + 1 \<le> maxAttempts \<Longrightarrow>
   checkRateLimit identifier maxAttempts windowMs now store =
     (\<lparr>allowed = True, remainingAttempts = maxAttempts - (count entry + 1),
       resetTime = now + windowMs\<rparr>,
      store(identifier \<mapsto> \<lparr>count = count entry + 1, lastAttempt = now,
                             blocked = blocked entry\<rparr>))"
  by (cases entry) (simp add: checkRateLimit_def Let_def)

subsection \<open>Sequences of calls\<close>

lemma checkRateLimit_calls_append:
  "checkRateLimit_calls identifier m W (xs @ ys) store =
     (let (ds1, store1) = checkRateLimit_calls identifier m W xs store;
          (ds2, store2) = checkRateLimit_calls identifier m W ys store1
      in (ds1 @ ds2, store2))"
  by (induction xs arbitrary: store) (simp_all add: case_prod_beta)

lemma calls_under_budget:
  assumes "store identifier = Some entry"
    and "start \<le> lastAttempt entry" and "lastAttempt entry \<le> start + W"
    and "in_window W start ts"
    and "count entry + int (length ts) \<le> m"
  shows "map allowed (fst (checkRateLimit_calls identifier m W ts store)) = replicate (length ts) True
       \<and> (\<exists>entry1. snd (checkRateLimit_calls identifier m W ts store) identifier = Some entry1
             \<and> count entry1 = count entry + int (length ts)
             \<and> start \<le> lastAttempt entry1 \<and> lastAttempt entry1 \<le> start + W)"
  using assms
proof (induction ts arbitrary: store entry)
  case Nil
  then show ?case by simp
next
  case (Cons t ts)
  let ?e = "\<lparr>count = count entry + 1, lastAttempt = t, blocked = blocked entry\<rparr>"
  from Cons.prems have t: "start \<le> t" "t \<le> start + W" and rest: "in_window W start ts"
    by (simp_all add: in_window_def)
  from Cons.prems t have step:
    "checkRateLimit identifier m W t store =
       (\<lparr>allowed = True, remainingAttempts = m - (count entry + 1), resetTime = t + W\<rparr>,
        store(identifier \<mapsto> ?e))"
    by (intro checkRateLimit_under) simp_all
  have IH:
    "map allowed (fst (checkRateLimit_calls identifier m W ts (store(identifier \<mapsto> ?e))))
       = replicate (length ts) True
     \<and> (\<exists>entry1. snd (checkRateLimit_calls identifier m W ts (store(identifier \<mapsto> ?e))) identifier
                    = Some entry1
             \<and> count entry1 = count ?e + int (length ts)
             \<and> start \<le> lastAttempt entry1 \<and> lastAttempt entry1 \<le> start + W)"
  proof (rule Cons.IH)
    show "(store(identifier \<mapsto> ?e)) identifier = Some ?e" by simp
    show "start \<le> lastAttempt ?e" "lastAttempt ?e \<le> start + W" using t by simp_all
    show "in_window W start ts" by (rule rest)
    show "count ?e + int (length ts) \<le> m" using Cons.prems by simp
  qed
  then show ?case
    by (simp add: step case_prod_beta add.assoc)
qed

text \<open>
  Claim C1. An identifier with no live entry (none at all, or one whose last attempt
  lies more than \<open>windowMs\<close> before the first call) and a budget
  \<open>maxAttempts \<ge> 1\<close>: of \<open>maxAttempts + 1\<close> calls that all fall inside the window
  opened by the first call, the first \<open>maxAttempts\<close> are allowed and the last one is
  refused.
\<close>

theorem checkRateLimit_budget:
  assumes fresh: "case store identifier of None \<Rightarrow> True
                  | Some entry \<Rightarrow> first - lastAttempt entry > windowMs"
    and "1 \<le> maxAttempts"
    and "int (length later) = maxAttempts - 1"
    and "in_window windowMs first (later @ [final])"
  shows "map allowed (fst (checkRateLimit_calls identifier maxAttempts windowMs
                             (first # later @ [final]) store))
         = replicate (nat maxAttempts) True @ [False]"
proof -
  let ?e = "\<lparr>count = 1, lastAttempt = first, blocked = False\<rparr>"
  let ?s1 = "store(identifier \<mapsto> ?e)"
  have step1: "checkRateLimit identifier maxAttempts windowMs first store =
      (\<lparr>allowed = True, remainingAttempts = maxAttempts - 1, resetTime = first + windowMs\<rparr>, ?s1)"
    using fresh by (simp add: checkRateLimit_def split: option.splits)
  have win: "in_window windowMs first later" and fin: "first \<le> final" "final \<le> first + windowMs"
    using assms(4) by (simp_all add: in_window_def)
  then have W0: "0 \<le> windowMs" by simp
  have mid: "map allowed (fst (checkRateLimit_calls identifier maxAttempts windowMs later ?s1))
               = replicate (length later) True
       \<and> (\<exists>entry1. snd (checkRateLimit_calls identifier maxAttempts windowMs later ?s1) identifier
                      = Some entry1
             \<and> count entry1 = count ?e + int (length later)
             \<and> first \<le> lastAttempt entry1 \<and> lastAttempt entry1 \<le> first + windowMs)"
    using assms(3) W0 win by (intro calls_under_budget) simp_all
  then obtain entry1 where
    e1: "snd (checkRateLimit_calls identifier maxAttempts windowMs later ?s1) identifier = Some entry1"
      "count entry1 = maxAttempts" "first \<le> lastAttempt entry1"
    using assms(3) by auto
  have last: "allowed (fst (checkRateLimit identifier maxAttempts windowMs final
                 (snd (checkRateLimit_calls identifier maxAttempts windowMs later ?s1)))) = False"
    using e1 fin by (simp add: checkRateLimit_over[where entry=entry1])
  have len: "Suc (length later) = nat maxAttempts" using assms(2,3) by linarith
  show ?thesis
    using mid last len
    by (simp add: step1 checkRateLimit_calls_append case_prod_beta flip: len)
qed

theorem checkRateLimit_budget_witness:
  "in_window 900000 0 ([1000, 2000, 3000, 4000] @ [900000])
   \<and> map allowed (fst (checkRateLimit_calls ''login:unknown'' 5 900000
                         (0 # [1000, 2000, 3000, 4000] @ [900000]) Map.empty))
       = [True, True, True, True, True, False]"
  using checkRateLimit_budget[where store = Map.empty and first = 0 and windowMs = 900000
          and maxAttempts = 5 and later = "[1000, 2000, 3000, 4000]" and final = 900000,
          of "''login:unknown''"]
  by (simp add: in_window_def numeral_eq_Suc)

text \<open>
  Claim C10. Once the stored count of an identifier exceeds \<open>maxAttempts\<close>, every
  further call that arrives at most \<open>windowMs\<close> after the call before it is refused,
  reports a reset time one full window after itself, and leaves the entry blocked with
  its timestamp moved to the time of that call: the identifier is not unblocked as long
  as it keeps attempting without a pause longer than the window.
\<close>

theorem blocked_stays_blocked:
  assumes "store identifier = Some entry"
    and "count entry > maxAttempts"
    and "gaps_within windowMs (lastAttempt entry) ts"
  shows "map allowed (fst (checkRateLimit_calls identifier maxAttempts windowMs ts store))
           = replicate (length ts) False
       \<and> map resetTime (fst (checkRateLimit_calls identifier maxAttempts windowMs ts store))
           = map (\<lambda>t. t + windowMs) ts
       \<and> snd (checkRateLimit_calls identifier maxAttempts windowMs ts store) identifier
           = Some \<lparr>count = count entry + int (length ts),
                   lastAttempt = last (lastAttempt entry # ts),
                   blocked = (ts \<noteq> [] \<or> blocked entry)\<rparr>"
  using assms
proof (induction ts arbitrary: store entry)
  case Nil
  then show ?case by (cases entry) simp
next
  case (Cons t ts)
  let ?e = "\<lparr>count = count entry + 1, lastAttempt = t, blocked = True\<rparr>"
  let ?s = "store(identifier \<mapsto> ?e)"
  have step: "checkRateLimit identifier maxAttempts windowMs t store =
                (\<lparr>allowed = False, remainingAttempts = 0, resetTime = t + windowMs\<rparr>, ?s)"
    using Cons.prems by (simp add: checkRateLimit_over[where entry = entry])
  have IH: "map allowed (fst (checkRateLimit_calls identifier maxAttempts windowMs ts ?s))
           = replicate (length ts) False
       \<and> map resetTime (fst (checkRateLimit_calls identifier maxAttempts windowMs ts ?s))
           = map (\<lambda>t. t + windowMs) ts
       \<and> snd (checkRateLimit_calls identifier maxAttempts windowMs ts ?s) identifier
           = Some \<lparr>count = count ?e + int (length ts),
                   lastAttempt = last (lastAttempt ?e # ts),
                   blocked = (ts \<noteq> [] \<or> blocked ?e)\<rparr>"
  proof (rule Cons.IH)
    show "?s identifier = Some ?e" by simp
    show "maxAttempts < count ?e" using Cons.prems by simp
    show "gaps_within windowMs (lastAttempt ?e) ts" using Cons.prems by simp
  qed
  then show ?case
    by (simp add: step case_prod_beta add.assoc)
qed

theorem blocked_stays_blocked_witness:
  "gaps_within 900000 0 [1000, 900000, 1800000]
   \<and> map allowed (fst (checkRateLimit_calls ''login:unknown'' 5 900000 [1000, 900000, 1800000]
        [''login:unknown'' \<mapsto> \<lparr>count = 6, lastAttempt = 0, blocked = True\<rparr>]))
      = [False, False, False]
   \<and> snd (checkRateLimit_calls ''login:unknown'' 5 900000 [1000, 900000, 1800000]
        [''login:unknown'' \<mapsto> \<lparr>count = 6, lastAttempt = 0, blocked = True\<rparr>]) ''login:unknown''
      = Some \<lparr>count = 9, lastAttempt = 1800000, blocked = True\<rparr>"
  using blocked_stays_blocked[where store = "[''login:unknown'' \<mapsto> \<lparr>count = 6, lastAttempt = 0, blocked = True\<rparr>]" and maxAttempts = 5 and windowMs = 900000
      and ts = "[1000, 900000, 1800000]"
      and entry = "\<lparr>count = 6, lastAttempt = 0, blocked = True\<rparr>", of "''login:unknown''"]
  by simp

subsection \<open>Single calls\<close>

text \<open>
  Claim C2, as stated, fails. The first attempt at time 0 opens the window of 1000 ms;
  a second attempt at 600 moves the stored timestamp to 600. At 1200 the window has
  elapsed past the first attempt, yet the call is compared with 600: it is not treated
  as a fresh identifier (which would be allowed) but counted as the third attempt and
  refused.
\<close>

theorem window_start_counterexample:
  "snd (checkRateLimit_calls ''u'' 2 1000 [0, 600] Map.empty) ''u''
     = Some \<lparr>count = 2, lastAttempt = 600, blocked = False\<rparr>
   \<and> (1200::int) - 0 > 1000
   \<and> checkRateLimit ''u'' 2 1000 1200 (snd (checkRateLimit_calls ''u'' 2 1000 [0, 600] Map.empty))
       \<noteq> checkRateLimit ''u'' 2 1000 1200 Map.empty
   \<and> fst (checkRateLimit ''u'' 2 1000 1200 (snd (checkRateLimit_calls ''u'' 2 1000 [0, 600] Map.empty)))
       = \<lparr>allowed = False, remainingAttempts = 0, resetTime = 2200\<rparr>"
  by (simp add: checkRateLimit_def)

text \<open>
  Claim C2, amended. The expiry check compares the clock with the stored
  \<open>lastAttempt\<close>, which every call overwrites with its own time. When more than
  \<open>windowMs\<close> has passed since the most recent call, the call behaves exactly as for an
  identifier without an entry (count 1, allowed); when at most \<open>windowMs\<close> has passed
  since the most recent call, the entry is kept and counted up, whenever the first
  attempt was.
\<close>

theorem expiry_compares_lastAttempt:
  assumes "store identifier = Some entry"
  shows "(now - lastAttempt entry > windowMs \<longrightarrow>
            checkRateLimit identifier maxAttempts windowMs now store
              = checkRateLimit identifier maxAttempts windowMs now (clearRateLimit identifier store)
          \<and> fst (checkRateLimit identifier maxAttempts windowMs now store)
              = \<lparr>allowed = True, remainingAttempts = maxAttempts - 1, resetTime = now + windowMs\<rparr>
          \<and> snd (checkRateLimit identifier maxAttempts windowMs now store) identifier
              = Some \<lparr>count = 1, lastAttempt = now, blocked = False\<rparr>)
       \<and> (now - lastAttempt entry \<le> windowMs \<longrightarrow>
            snd (checkRateLimit identifier maxAttempts windowMs now store) identifier
              = Some \<lparr>count = count entry + 1, lastAttempt = now,
                      blocked = (blocked entry \<or> count entry + 1 > maxAttempts)\<rparr>)"
  using assms by (cases entry) (simp add: checkRateLimit_def clearRateLimit_def Let_def)

theorem expiry_compares_lastAttempt_witness:
  "checkRateLimit ''u'' 5 1000 1601 [''u'' \<mapsto> \<lparr>count = 2, lastAttempt = 600, blocked = False\<rparr>]
     = checkRateLimit ''u'' 5 1000 1601
         (clearRateLimit ''u'' [''u'' \<mapsto> \<lparr>count = 2, lastAttempt = 600, blocked = False\<rparr>])
   \<and> snd (checkRateLimit ''u'' 5 1000 1600
            [''u'' \<mapsto> \<lparr>count = 2, lastAttempt = 600, blocked = False\<rparr>]) ''u''
     = Some \<lparr>count = 3, lastAttempt = 1600, blocked = False\<rparr>"
  using expiry_compares_lastAttempt[where store = "[''u'' \<mapsto> \<lparr>count = 2, lastAttempt = 600, blocked = False\<rparr>]" and entry = "\<lparr>count = 2, lastAttempt = 600, blocked = False\<rparr>"
      and now = 1601 and windowMs = 1000 and maxAttempts = 5, of "''u''"]
    expiry_compares_lastAttempt[where store = "[''u'' \<mapsto> \<lparr>count = 2, lastAttempt = 600, blocked = False\<rparr>]" and entry = "\<lparr>count = 2, lastAttempt = 600, blocked = False\<rparr>"
      and now = 1600 and windowMs = 1000 and maxAttempts = 5, of "''u''"]
  by simp

text \<open>
  Claim C3, as stated, fails on the reset time. With a budget of 1 and a window of
  1000 ms, the window opens at the first attempt (time 0); the attempt at 600 is over
  budget and gets the reset time 1600, the time of that call plus the window, not
  0 + 1000.
\<close>

theorem resetTime_counterexample:
  "fst (checkRateLimit_calls ''u'' 1 1000 [0, 600] Map.empty)
     = [\<lparr>allowed = True, remainingAttempts = 0, resetTime = 1000\<rparr>,
        \<lparr>allowed = False, remainingAttempts = 0, resetTime = 1600\<rparr>]
   \<and> resetTime (last (fst (checkRateLimit_calls ''u'' 1 1000 [0, 600] Map.empty))) \<noteq> 0 + 1000"
  by (simp add: checkRateLimit_def)

text \<open>
  Claim C3, amended. When the identifier has an entry that is still inside the window
  and the incremented count exceeds \<open>maxAttempts\<close>, the entry is stored with
  \<open>blocked = true\<close> and the decision is exactly \<open>allowed = false\<close>,
  \<open>remainingAttempts = 0\<close>, \<open>resetTime = now + windowMs\<close> (the time of this call,
  which is also the stored \<open>lastAttempt\<close>, plus the window). In every other case the
  decision is \<open>allowed = true\<close> with \<open>remainingAttempts = maxAttempts - count\<close> for
  the count now stored.
\<close>

theorem checkRateLimit_decision:
  "(\<forall>entry. store identifier = Some entry \<and> now - lastAttempt entry \<le> windowMs
            \<and> count entry + 1 > maxAttempts \<longrightarrow>
       checkRateLimit identifier maxAttempts windowMs now store
         = (\<lparr>allowed = False, remainingAttempts = 0, resetTime = now + windowMs\<rparr>,
            store(identifier \<mapsto> \<lparr>count = count entry + 1, lastAttempt = now, blocked = True\<rparr>)))
   \<and> ((\<nexists>entry. store identifier = Some entry \<and> now - lastAttempt entry \<le> windowMs
            \<and> count entry + 1 > maxAttempts) \<longrightarrow>
       (\<exists>entry1. snd (checkRateLimit identifier maxAttempts windowMs now store) identifier
                    = Some entry1
                 \<and> lastAttempt entry1 = now
                 \<and> fst (checkRateLimit identifier maxAttempts windowMs now store)
                    = \<lparr>allowed = True, remainingAttempts = maxAttempts - count entry1,
                        resetTime = now + windowMs\<rparr>))"
proof (intro conjI allI impI)
  fix entry
  assume "store identifier = Some entry \<and> now - lastAttempt entry \<le> windowMs
            \<and> count entry + 1 > maxAttempts"
  then show "checkRateLimit identifier maxAttempts windowMs now store
         = (\<lparr>allowed = False, remainingAttempts = 0, resetTime = now + windowMs\<rparr>,
            store(identifier \<mapsto> \<lparr>count = count entry + 1, lastAttempt = now, blocked = True\<rparr>))"
    by (simp add: checkRateLimit_over[where entry = entry])
next
  assume no: "\<nexists>entry. store identifier = Some entry \<and> now - lastAttempt entry \<le> windowMs
            \<and> count entry + 1 > maxAttempts"
  show "\<exists>entry1. snd (checkRateLimit identifier maxAttempts windowMs now store) identifier
                    = Some entry1
                 \<and> lastAttempt entry1 = now
                 \<and> fst (checkRateLimit identifier maxAttempts windowMs now store)
                    = \<lparr>allowed = True, remainingAttempts = maxAttempts - count entry1,
                        resetTime = now + windowMs\<rparr>"
  proof (cases "store identifier")
    case None
    then show ?thesis by (simp add: checkRateLimit_fresh)
  next
    case (Some entry)
    show ?thesis
    proof (cases "now - lastAttempt entry > windowMs")
      case True
      with Some show ?thesis by (simp add: checkRateLimit_expired[where entry = entry])
    next
      case False
      with no Some have "count entry + 1 \<le> maxAttempts" by auto
      with Some False show ?thesis by (simp add: checkRateLimit_under[where entry = entry])
    qed
  qed
qed

theorem checkRateLimit_decision_witness:
  "checkRateLimit ''u'' 1 1000 600 [''u'' \<mapsto> \<lparr>count = 1, lastAttempt = 0, blocked = False\<rparr>]
     = (\<lparr>allowed = False, remainingAttempts = 0, resetTime = 1600\<rparr>,
        [''u'' \<mapsto> \<lparr>count = 2, lastAttempt = 600, blocked = True\<rparr>])
   \<and> (\<exists>entry1. snd (checkRateLimit ''u'' 5 1000 600 Map.empty) ''u'' = Some entry1
         \<and> lastAttempt entry1 = 600
         \<and> fst (checkRateLimit ''u'' 5 1000 600 Map.empty)
            = \<lparr>allowed = True, remainingAttempts = 5 - count entry1, resetTime = 600 + 1000\<rparr>)"
  using checkRateLimit_decision[where store = "[''u'' \<mapsto> \<lparr>count = 1, lastAttempt = 0, blocked = False\<rparr>]" and now = 600 and windowMs = 1000 and maxAttempts = 1, of "''u''"]
        checkRateLimit_decision[where store = Map.empty and now = 600 and windowMs = 1000 and maxAttempts = 5, of "''u''"]
  by simp

text \<open>
  Claim C9, as stated, fails for a budget of 0: the first call for an unseen identifier
  returns \<open>remainingAttempts = -1\<close>.
\<close>

theorem remainingAttempts_counterexample:
  "remainingAttempts (fst (checkRateLimit ''u'' 0 1000 0 Map.empty)) = - 1
   \<and> \<not> 0 \<le> remainingAttempts (fst (checkRateLimit ''u'' 0 1000 0 Map.empty))"
  by (simp add: checkRateLimit_def)

text \<open>
  Claim C9, amended. For every identifier, every prior store and every budget
  \<open>maxAttempts \<ge> 1\<close>, the decision has \<open>remainingAttempts \<ge> 0\<close>.
\<close>

theorem remainingAttempts_nonneg:
  "1 \<le> maxAttempts \<Longrightarrow>
   0 \<le> remainingAttempts (fst (checkRateLimit identifier maxAttempts windowMs now store))"
  by (simp add: checkRateLimit_def Let_def split: option.splits)

theorem remainingAttempts_nonneg_witness:
  "(1::int) \<le> 5 \<and> 0 \<le> remainingAttempts (fst (checkRateLimit ''login:unknown'' 5 900000 0 Map.empty))"
  using remainingAttempts_nonneg[where maxAttempts = 5
          and windowMs = 900000 and now = 0 and store = Map.empty, of "''login:unknown''"]
  by simp

text \<open>
  The periodic sweep keeps every entry whose last attempt is at most an hour old, so for
  windows of up to an hour (both callers) it only removes entries that the next call
  would reset anyway.
\<close>

lemma cleanupOldEntries_keeps:
  "store identifier = Some entry \<Longrightarrow> now - lastAttempt entry \<le> 60 * 60 * 1000 \<Longrightarrow>
   cleanupOldEntries now store identifier = Some entry"
  by (simp add: cleanupOldEntries_def)

section \<open>Properties of the validators\<close>

lemma validatePassword_short: "validatePassword ''short1!'' =
        \<lparr>isValid = False, message = Some ''Password must be at least 8 characters long''\<rparr>"
  by (simp add: validatePassword_def)

lemma validatePassword_no_upper: "validatePassword ''alllowercase1!'' =
        \<lparr>isValid = False, message = Some ''Password must contain at least one uppercase letter''\<rparr>"
  by (simp add: validatePassword_def isLower_def isUpper_def)

lemma validatePassword_valid: "validatePassword ''Valid1Pass!'' = \<lparr>isValid = True, message = None\<rparr>"
  by (simp add: validatePassword_def isLower_def isUpper_def isDigit_def isSpecial_def specialChars_def)

text \<open>
  Claim C8. \<open>validatePassword\<close> checks the six rules in the order too short (under 8),
  too long (over 128), no lowercase letter, no uppercase letter, no digit, no special
  character, and returns the reason of the first rule violated and nothing else; a
  password that violates none is valid. \<open>short1!\<close> is rejected (too short),
  \<open>alllowercase1!\<close> is rejected (no uppercase letter) and \<open>Valid1Pass!\<close> is accepted.
\<close>

theorem validatePassword_first_violation:
  "validatePassword pwd =
     (case firstViolatedRule pwd of
        None \<Rightarrow> \<lparr>isValid = True, message = None\<rparr>
      | Some reason \<Rightarrow> \<lparr>isValid = False, message = Some reason\<rparr>)
   \<and> validatePassword ''short1!'' =
        \<lparr>isValid = False, message = Some ''Password must be at least 8 characters long''\<rparr>
   \<and> validatePassword ''alllowercase1!'' =
        \<lparr>isValid = False, message = Some ''Password must contain at least one uppercase letter''\<rparr>
   \<and> validatePassword ''Valid1Pass!'' = \<lparr>isValid = True, message = None\<rparr>"
proof (intro conjI)
  show "validatePassword pwd =
     (case firstViolatedRule pwd of
        None \<Rightarrow> \<lparr>isValid = True, message = None\<rparr>
      | Some reason \<Rightarrow> \<lparr>isValid = False, message = Some reason\<rparr>)"
    by (simp add: validatePassword_def firstViolatedRule_def passwordRules_def)
qed (rule validatePassword_short validatePassword_no_upper validatePassword_valid)+

section \<open>Properties of the login action\<close>

lemma checkRateLimit_stores_now:
  "\<exists>entry. snd (checkRateLimit identifier maxAttempts windowMs now store) identifier = Some entry
         \<and> lastAttempt entry = now"
  by (simp add: checkRateLimit_def Let_def split: option.splits)

lemma login_store:
  "snd (login toLocaleTimeString signInWithPassword headersList data now store)
     = snd (checkRateLimit (''login:'' @ getClientIP headersList) 5 (15 * 60 * 1000) now store)"
  by (simp add: login_def login_try_def Let_def case_prod_beta
        split: option.splits list.splits signIn_outcome.splits)

text \<open>
  Claim C7. When the rate limit admits the call and the form data pass validation, so
  that the provider is asked: if the provider answers with an error, the result is one
  of four fixed messages, chosen only by which of three known phrases the provider's
  message contains (invalid credentials, email not verified, provider rate limit, and
  one generic message for everything else); if the provider call throws, the
  \<open>catch\<close> clause returns its own fixed message. The provider's text is never passed
  on and no exception leaves \<open>login\<close>.
\<close>

theorem login_provider_failure:
  assumes "allowed (fst (checkRateLimit (''login:'' @ getClientIP headersList) 5 (15 * 60 * 1000)
                           now store))"
    and "email data = Some e" and "e \<noteq> []" and "password data = Some p" and "p \<noteq> []"
    and "validateEmail (sanitizeInput e)"
  shows "(\<forall>msg. signInWithPassword (sanitizeInput e) p = SignInError msg \<longrightarrow>
            error (fst (login toLocaleTimeString signInWithPassword headersList data now store))
              = Some (if str_includes msg ''Invalid login credentials''
                        then ''Invalid email or password''
                      else if str_includes msg ''Email not confirmed''
                        then ''Please verify your email address before signing in''
                      else if str_includes msg ''Too many requests''
                        then ''Too many login attempts. Please try again later''
                      else ''Authentication failed. Please try again'')
          \<and> error (fst (login toLocaleTimeString signInWithPassword headersList data now store))
              \<in> {Some ''Invalid email or password'',
                  Some ''Please verify your email address before signing in'',
                  Some ''Too many login attempts. Please try again later'',
                  Some ''Authentication failed. Please try again''})
       \<and> (signInWithPassword (sanitizeInput e) p = SignInThrows \<longrightarrow>
            error (fst (login toLocaleTimeString signInWithPassword headersList data now store))
              = Some ''An unexpected error occurred. Please try again'')"
proof -
  obtain c cs where e: "e = c # cs" using assms(3) by (cases e) auto
  obtain d ds where p: "p = d # ds" using assms(5) by (cases p) auto
  show ?thesis
    using assms(1,2,4,6) unfolding e p
    by (simp add: login_def login_try_def Let_def case_prod_beta)
qed

theorem login_provider_failure_witness:
  "error (fst (login (\<lambda>t. ''12:15:00'') (\<lambda>e p. SignInError ''AuthApiError: Invalid login credentials'')
                 Map.empty \<lparr>email = Some ''ann@example.com'', password = Some ''guess''\<rparr> 0 Map.empty))
     = Some ''Invalid email or password''
   \<and> error (fst (login (\<lambda>t. ''12:15:00'') (\<lambda>e p. SignInError ''relation users does not exist'')
                 Map.empty \<lparr>email = Some ''ann@example.com'', password = Some ''guess''\<rparr> 0 Map.empty))
     = Some ''Authentication failed. Please try again''
   \<and> error (fst (login (\<lambda>t. ''12:15:00'') (\<lambda>e p. SignInThrows)
                 Map.empty \<lparr>email = Some ''ann@example.com'', password = Some ''guess''\<rparr> 0 Map.empty))
     = Some ''An unexpected error occurred. Please try again''"
proof -
  have rl: "allowed (fst (checkRateLimit (''login:'' @ getClientIP Map.empty) 5 (15 * 60 * 1000)
                           0 Map.empty))"
    by (simp add: checkRateLimit_def)
  have em: "validateEmail (sanitizeInput ''ann@example.com'')"
    by (simp add: validateEmail_def sanitizeInput_def trim_def isWhiteSpace_def
          emailRegex_test_def emailChar_def)
  note inst = login_provider_failure[where data = "\<lparr>email = Some ''ann@example.com'', password = Some ''guess''\<rparr>"
                 and e = "''ann@example.com''" and p = "''guess''" and headersList = Map.empty
                 and now = 0 and store = Map.empty and toLocaleTimeString = "\<lambda>t. ''12:15:00''",
                 OF rl _ _ _ _ em]
  show ?thesis
    using inst[where signInWithPassword = "\<lambda>e p. SignInError ''AuthApiError: Invalid login credentials''"]
          inst[where signInWithPassword = "\<lambda>e p. SignInError ''relation users does not exist''"]
          inst[where signInWithPassword = "\<lambda>e p. SignInThrows"]
    by (simp add: startsWith_def)
qed

text \<open>
  Claim C4, as stated, fails. A caller with four earlier attempts logs in successfully:
  the result has no error, yet the entry stays in the store with count 5, and the
  caller's next attempt is refused, where a fresh identifier would be allowed with four
  attempts remaining.
\<close>

theorem login_success_counterexample:
  "error (fst (login (\<lambda>t. ''12:15:00'') (\<lambda>e p. SignInOk) [''x-forwarded-for'' \<mapsto> ''203.0.113.9'']
                 \<lparr>email = Some ''ann@example.com'', password = Some ''Valid1Pass!''\<rparr> 1000
                 [''login:203.0.113.9'' \<mapsto> \<lparr>count = 4, lastAttempt = 0, blocked = False\<rparr>])) = None
   \<and> snd (login (\<lambda>t. ''12:15:00'') (\<lambda>e p. SignInOk) [''x-forwarded-for'' \<mapsto> ''203.0.113.9'']
                 \<lparr>email = Some ''ann@example.com'', password = Some ''Valid1Pass!''\<rparr> 1000
                 [''login:203.0.113.9'' \<mapsto> \<lparr>count = 4, lastAttempt = 0, blocked = False\<rparr>])
        ''login:203.0.113.9''
      = Some \<lparr>count = 5, lastAttempt = 1000, blocked = False\<rparr>
   \<and> fst (checkRateLimit ''login:203.0.113.9'' 5 (15 * 60 * 1000) 2000
        (snd (login (\<lambda>t. ''12:15:00'') (\<lambda>e p. SignInOk) [''x-forwarded-for'' \<mapsto> ''203.0.113.9'']
                 \<lparr>email = Some ''ann@example.com'', password = Some ''Valid1Pass!''\<rparr> 1000
                 [''login:203.0.113.9'' \<mapsto> \<lparr>count = 4, lastAttempt = 0, blocked = False\<rparr>])))
      = \<lparr>allowed = False, remainingAttempts = 0, resetTime = 902000\<rparr>
   \<and> fst (checkRateLimit ''login:203.0.113.9'' 5 (15 * 60 * 1000) 2000 Map.empty)
      = \<lparr>allowed = True, remainingAttempts = 4, resetTime = 902000\<rparr>"
  by (simp add: login_def login_try_def getClientIP_def trim_def isWhiteSpace_def
        checkRateLimit_def validateEmail_def sanitizeInput_def emailRegex_test_def emailChar_def)

text \<open>
  Claim C4, amended. After a login call that succeeds, the entry for the caller's
  identifier is not removed: the store is exactly what the \<open>checkRateLimit\<close> call at
  the start of that login left, with an entry for the identifier stamped with the time
  of the login, and a \<open>checkRateLimit\<close> for that identifier that arrives at most 15
  minutes after the login counts that entry up by one instead of starting afresh. Once
  \<open>clearRateLimit\<close> has been applied to that store, the entry is absent and the next
  \<open>checkRateLimit\<close> answers as for a fresh identifier (allowed, four attempts
  remaining).
\<close>

theorem login_success_keeps_entry:
  assumes "error (fst (login toLocaleTimeString signInWithPassword headersList data now store)) = None"
  shows "snd (login toLocaleTimeString signInWithPassword headersList data now store)
           = snd (checkRateLimit (''login:'' @ getClientIP headersList) 5 (15 * 60 * 1000) now store)
       \<and> (\<exists>entry. snd (login toLocaleTimeString signInWithPassword headersList data now store)
                     (''login:'' @ getClientIP headersList) = Some entry
                 \<and> lastAttempt entry = now
                 \<and> (later - now \<le> 15 * 60 * 1000 \<longrightarrow>
                      snd (checkRateLimit (''login:'' @ getClientIP headersList) 5 (15 * 60 * 1000)
                             later
                             (snd (login toLocaleTimeString signInWithPassword headersList data
                                     now store)))
                          (''login:'' @ getClientIP headersList)
                        = Some \<lparr>count = count entry + 1, lastAttempt = later,
                                blocked = (blocked entry \<or> 5 < count entry + 1)\<rparr>))
       \<and> clearRateLimit (''login:'' @ getClientIP headersList)
            (snd (login toLocaleTimeString signInWithPassword headersList data now store))
            (''login:'' @ getClientIP headersList) = None
       \<and> fst (checkRateLimit (''login:'' @ getClientIP headersList) 5 (15 * 60 * 1000) later
            (clearRateLimit (''login:'' @ getClientIP headersList)
               (snd (login toLocaleTimeString signInWithPassword headersList data now store))))
           = \<lparr>allowed = True, remainingAttempts = 4, resetTime = later + 15 * 60 * 1000\<rparr>"
proof -
  let ?key = "''login:'' @ getClientIP headersList"
  let ?store1 = "snd (login toLocaleTimeString signInWithPassword headersList data now store)"
  have same: "?store1 = snd (checkRateLimit ?key 5 (15 * 60 * 1000) now store)"
    by (rule login_store)
  obtain entry where entry: "?store1 ?key = Some entry" "lastAttempt entry = now"
    using checkRateLimit_stores_now[of ?key 5 "15 * 60 * 1000" now store] same by auto
  have counted: "later - now \<le> 15 * 60 * 1000 \<longrightarrow>
      snd (checkRateLimit ?key 5 (15 * 60 * 1000) later ?store1) ?key
        = Some \<lparr>count = count entry + 1, lastAttempt = later,
                blocked = (blocked entry \<or> 5 < count entry + 1)\<rparr>"
    using entry by (cases entry) (simp add: checkRateLimit_def Let_def)
  have cleared: "clearRateLimit ?key ?store1 ?key = None"
    by (simp add: clearRateLimit_def)
  have fresh: "fst (checkRateLimit ?key 5 (15 * 60 * 1000) later (clearRateLimit ?key ?store1))
                 = \<lparr>allowed = True, remainingAttempts = 4, resetTime = later + 15 * 60 * 1000\<rparr>"
    using cleared by (simp add: checkRateLimit_fresh)
  from same entry counted cleared fresh show ?thesis by blast
qed

theorem login_success_keeps_entry_witness:
  "error (fst (login (\<lambda>t. ''12:15:00'') (\<lambda>e p. SignInOk) [''x-forwarded-for'' \<mapsto> ''203.0.113.9'']
                 \<lparr>email = Some ''ann@example.com'', password = Some ''Valid1Pass!''\<rparr> 1000
                 [''login:203.0.113.9'' \<mapsto> \<lparr>count = 4, lastAttempt = 0, blocked = False\<rparr>])) = None
   \<and> (2000::int) - 1000 \<le> 15 * 60 * 1000
   \<and> (\<exists>entry. snd (login (\<lambda>t. ''12:15:00'') (\<lambda>e p. SignInOk) [''x-forwarded-for'' \<mapsto> ''203.0.113.9'']
                 \<lparr>email = Some ''ann@example.com'', password = Some ''Valid1Pass!''\<rparr> 1000
                 [''login:203.0.113.9'' \<mapsto> \<lparr>count = 4, lastAttempt = 0, blocked = False\<rparr>])
                  (''login:'' @ getClientIP [''x-forwarded-for'' \<mapsto> ''203.0.113.9'']) = Some entry
            \<and> lastAttempt entry = 1000
            \<and> snd (checkRateLimit (''login:'' @ getClientIP [''x-forwarded-for'' \<mapsto> ''203.0.113.9''])
                      5 (15 * 60 * 1000) 2000
                      (snd (login (\<lambda>t. ''12:15:00'') (\<lambda>e p. SignInOk)
                              [''x-forwarded-for'' \<mapsto> ''203.0.113.9'']
                              \<lparr>email = Some ''ann@example.com'', password = Some ''Valid1Pass!''\<rparr> 1000
                              [''login:203.0.113.9'' \<mapsto>
                                 \<lparr>count = 4, lastAttempt = 0, blocked = False\<rparr>])))
                   (''login:'' @ getClientIP [''x-forwarded-for'' \<mapsto> ''203.0.113.9''])
                = Some \<lparr>count = count entry + 1, lastAttempt = 2000,
                        blocked = (blocked entry \<or> 5 < count entry + 1)\<rparr>)"
proof -
  have ok: "error (fst (login (\<lambda>t. ''12:15:00'') (\<lambda>e p. SignInOk) [''x-forwarded-for'' \<mapsto> ''203.0.113.9'']
                 \<lparr>email = Some ''ann@example.com'', password = Some ''Valid1Pass!''\<rparr> 1000
                 [''login:203.0.113.9'' \<mapsto> \<lparr>count = 4, lastAttempt = 0, blocked = False\<rparr>])) = None"
    by (simp add: login_def login_try_def getClientIP_def trim_def isWhiteSpace_def
        checkRateLimit_def validateEmail_def sanitizeInput_def emailRegex_test_def emailChar_def)
  have gap: "(2000::int) - 1000 \<le> 15 * 60 * 1000" by simp
  from login_success_keeps_entry[OF ok, of 2000] ok gap show ?thesis by blast
qed

section \<open>Properties of the session middleware\<close>

lemma searchParams_get_set:
  "searchParams_get name (searchParams_set name v ps) = Some v"
  by (induction ps) (auto simp: searchParams_get_def)

lemma kind_headers_set [simp]: "kind (headers_set name v response) = kind response"
  by (simp add: headers_set_def)

lemma kind_setAll: "kind (setAll cs r) = PassThrough"
proof -
  have "kind (fold cookies_set cs r0) = kind r0" for r0
    by (induction cs arbitrary: r0) (simp_all add: cookies_set_def)
  then show ?thesis by (simp add: setAll_def NextResponse_next_def)
qed

lemma kind_fold_setAll: "kind (fold setAll calls NextResponse_next) = PassThrough"
  by (induction calls rule: rev_induct) (simp_all add: NextResponse_next_def kind_setAll)

text \<open>
  Claim C6. A path that starts with an entry of the public-path list or ends in a static
  file extension passes through, with the same response whether or not a user is
  resolved. A path that does neither, with no user, is redirected to \<open>/login\<close> on the same
  origin, and the \<open>redirect\<close> query parameter of the target is the path requested.
  With a user, the request passes through.
\<close>

theorem updateSession_routing:
  "(isPublicPath (pathname nextUrl) \<or> isStaticFile (pathname nextUrl) \<longrightarrow>
      kind (updateSession nextUrl setAllCalls user) = PassThrough
      \<and> updateSession nextUrl setAllCalls user = updateSession nextUrl setAllCalls (None :: 'u option))
   \<and> (\<not> isPublicPath (pathname nextUrl) \<and> \<not> isStaticFile (pathname nextUrl) \<and> user = None \<longrightarrow>
      (\<exists>url. kind (updateSession nextUrl setAllCalls user) = RedirectTo url
            \<and> pathname url = ''/login''
            \<and> origin url = origin nextUrl
            \<and> searchParams_get ''redirect'' (searchParams url) = Some (pathname nextUrl)))
   \<and> (user \<noteq> None \<longrightarrow> kind (updateSession nextUrl setAllCalls user) = PassThrough)"
  by (simp add: updateSession_def Let_def kind_fold_setAll NextResponse_redirect_def
        searchParams_get_set)

theorem updateSession_routing_witness:
  "kind (updateSession \<lparr>origin = ''https://polly.example'', pathname = ''/login'', searchParams = []\<rparr>
           [] (None :: string option)) = PassThrough
   \<and> kind (updateSession \<lparr>origin = ''https://polly.example'', pathname = ''/logo.PNG'', searchParams = []\<rparr>
           [] (None :: string option)) = PassThrough
   \<and> (\<exists>url. kind (updateSession \<lparr>origin = ''https://polly.example'', pathname = ''/polls/7'',
                                    searchParams = [(''tab'', ''results'')]\<rparr>
                      [] (None :: string option)) = RedirectTo url
         \<and> pathname url = ''/login''
         \<and> searchParams_get ''redirect'' (searchParams url) = Some ''/polls/7'')
   \<and> kind (updateSession \<lparr>origin = ''https://polly.example'', pathname = ''/polls/7'', searchParams = []\<rparr>
           [] (Some ''user-1'')) = PassThrough"
  using updateSession_routing[where nextUrl = "\<lparr>origin = ''https://polly.example'', pathname = ''/login'', searchParams = []\<rparr>"
          and setAllCalls = "[]" and user = "None :: string option"]
        updateSession_routing[where nextUrl = "\<lparr>origin = ''https://polly.example'', pathname = ''/logo.PNG'', searchParams = []\<rparr>"
          and setAllCalls = "[]" and user = "None :: string option"]
        updateSession_routing[where nextUrl = "\<lparr>origin = ''https://polly.example'', pathname = ''/polls/7'', searchParams = [(''tab'', ''results'')]\<rparr>"
          and setAllCalls = "[]" and user = "None :: string option"]
        updateSession_routing[where nextUrl = "\<lparr>origin = ''https://polly.example'', pathname = ''/polls/7'', searchParams = []\<rparr>"
          and setAllCalls = "[]" and user = "Some ''user-1''"]
  by (auto simp add: isPublicPath_def publicPaths_def startsWith_def isStaticFile_def
        staticExtensions_def endsWith_def toLowerASCII_def)

text \<open>
  Claim C5 at the request \<open>/polls\<close> without a user. The four security headers are set
  on \<open>supabaseResponse\<close>, but the redirect is a new response made by
  \<open>NextResponse.redirect\<close>: it carries none of them.
\<close>

theorem redirect_lacks_security_headers:
  "updateSession \<lparr>origin = ''https://polly.example'', pathname = ''/polls'', searchParams = []\<rparr>
      [] (None :: string option)
     = \<lparr>kind = RedirectTo \<lparr>origin = ''https://polly.example'', pathname = ''/login'',
                           searchParams = [(''redirect'', ''/polls'')]\<rparr>,
        headers = Map.empty, cookies = []\<rparr>
   \<and> \<not> hasSecurityHeaders
        (updateSession \<lparr>origin = ''https://polly.example'', pathname = ''/polls'', searchParams = []\<rparr>
           [] (None :: string option))"
  by (simp add: updateSession_def Let_def isPublicPath_def publicPaths_def startsWith_def
        isStaticFile_def staticExtensions_def endsWith_def toLowerASCII_def
        NextResponse_redirect_def hasSecurityHeaders_def securityHeaders_def)

text \<open>Every response that passes through does carry the four security headers.\<close>

lemma passThrough_has_security_headers:
  "kind (updateSession nextUrl setAllCalls user) = PassThrough \<Longrightarrow>
   hasSecurityHeaders (updateSession nextUrl setAllCalls user)"
  by (auto simp: updateSession_def Let_def hasSecurityHeaders_def securityHeaders_def
        headers_set_def NextResponse_redirect_def split: if_splits)

end
